theory Spec2Isabelle
  imports Complex_Main "HOL-Library.Word"
begin

section \<open>Numbers of the program\<close>

text \<open>
  The program \<^verbatim>\<open>si5351-experiments.c\<close> computes with \<^verbatim>\<open>double\<close>, \<^verbatim>\<open>uint32_t\<close>,
  \<^verbatim>\<open>uint8_t\<close> and \<^verbatim>\<open>int\<close>.

  \<^item> \<^verbatim>\<open>uint32_t\<close> and \<^verbatim>\<open>uint8_t\<close> are words of 32 and 8 bits: \<open>+\<close>, \<open>-\<close> and \<open>*\<close> wrap
    around, \<open>div\<close> and \<open>mod\<close> are the unsigned operations of C.
  \<^item> \<^verbatim>\<open>double\<close> is the type \<open>real\<close>: a finite double is a real number, and every
    operation is the exact one. Rounding to 53 bits, infinities and NaN are not part of
    this model. The one place where the code can produce an infinity or a NaN from
    finite operands (a quotient with denominator zero, line 272) is written out as a
    branch of its own.
  \<^item> \<^verbatim>\<open>int\<close> is \<open>int\<close>; the counters of the program stay far below its range.
\<close>

type_synonym u32 = "32 word"
type_synonym u8 = "8 word"

text \<open>
  \<^verbatim>\<open>modf(x, &ip)\<close> stores the integral part of \<open>x\<close>, rounded towards zero, in \<open>ip\<close>
  and returns the fractional part; both carry the sign of \<open>x\<close>.
\<close>

definition modf_int :: "real \<Rightarrow> real" where
  "modf_int x = (if 0 \<le> x then of_int \<lfloor>x\<rfloor> else of_int \<lceil>x\<rceil>)"

definition modf_frac :: "real \<Rightarrow> real" where
  "modf_frac x = x - modf_int x"

text \<open>
  The cast \<^verbatim>\<open>(uint32_t) x\<close> of a double drops the fraction (towards zero). C defines
  the result only when the integral part fits the type; outside that range the model
  takes the low 32 bits. No theorem below depends on that choice without saying so.
\<close>

definition u32_of_double :: "real \<Rightarrow> u32" where
  "u32_of_double x = word_of_int (if 0 \<le> x then \<lfloor>x\<rfloor> else \<lceil>x\<rceil>)"

text \<open>The cast \<^verbatim>\<open>(double) n\<close> of a \<^verbatim>\<open>uint32_t\<close> is exact.\<close>

definition double_of_u32 :: "u32 \<Rightarrow> real" where
  "double_of_u32 n = real (unat n)"

section \<open>The rational approximation (lines 244 to 285)\<close>

definition epsilon :: real where
  "epsilon = 1 / 100000"

text \<open>
  The state of \<^verbatim>\<open>rational_approximation\<close>: the three cells its pointer arguments
  \<^verbatim>\<open>a\<close>, \<^verbatim>\<open>b\<close>, \<^verbatim>\<open>c\<close> point to, and its locals \<^verbatim>\<open>f\<close>, \<^verbatim>\<open>delta\<close>, \<^verbatim>\<open>h[0]\<close>, \<^verbatim>\<open>h[1]\<close>,
  \<^verbatim>\<open>k[0]\<close>, \<^verbatim>\<open>k[1]\<close> and \<^verbatim>\<open>i\<close>. The field \<open>seen\<close> is a history variable that the code
  does not have: it records, in order, every pair \<^verbatim>\<open>(hm, km)\<close> for which line 272 is
  reached, that is every candidate of the scan whose denominator passed the test of
  line 269. Nothing reads it.
\<close>

record ra_state =
  a_out :: u32
  b_out :: u32
  c_out :: u32
  f :: real
  delta :: real
  h0 :: u32
  h1 :: u32
  k0 :: u32
  k1 :: u32
  i :: int
  seen :: "(u32 \<times> u32) list"

text \<open>
  The error \<^verbatim>\<open>fabs((double) hm / (double) km - f0)\<close> of a candidate (line 272), for a
  denominator that is not zero.
\<close>

definition approx_error :: "real \<Rightarrow> u32 \<Rightarrow> u32 \<Rightarrow> real" where
  "approx_error f0 hm km = \<bar>double_of_u32 hm / double_of_u32 km - f0\<bar>"

text \<open>
  Lines 272 to 277. When \<^verbatim>\<open>km\<close> is zero the quotient of line 272 is an infinity (or a
  NaN when \<^verbatim>\<open>hm\<close> is zero too), \<^verbatim>\<open>d\<close> is an infinity or a NaN, and the comparison
  \<^verbatim>\<open>d < delta\<close> is false.
\<close>

definition try_candidate :: "real \<Rightarrow> u32 \<Rightarrow> u32 \<Rightarrow> ra_state \<Rightarrow> ra_state" where
  "try_candidate f0 hm km s =
     (let s1 = s\<lparr>seen := seen s @ [(hm, km)]\<rparr> in
      if km = 0 then s1
      else
        let d = approx_error f0 hm km in
        if d < delta s1 then s1\<lparr>delta := d, b_out := hm, c_out := km\<rparr> else s1)"

text \<open>
  The inner loop, lines 266 to 278, from the value \<open>m\<close> of its counter on. The counter is
  a \<^verbatim>\<open>uint32_t\<close>: for \<^verbatim>\<open>an = 0xFFFFFFFF\<close> the test \<^verbatim>\<open>m <= an\<close> cannot fail, so the loop
  is a partial function, and \<open>None\<close> stands for a loop that does not return.
\<close>

partial_function (option) semiconvergent_scan ::
  "real \<Rightarrow> u32 \<Rightarrow> u32 \<Rightarrow> u32 \<Rightarrow> ra_state \<Rightarrow> ra_state option" where
  "semiconvergent_scan f0 max_denominator an m s =
     (if m \<le> an then
        (let hm = m * h1 s + h0 s;
             km = m * k1 s + k0 s
         in if km > max_denominator then Some s
            else semiconvergent_scan f0 max_denominator an (m + 1) (try_candidate f0 hm km s))
      else Some s)"

text \<open>
  The scan writes the cells of \<^verbatim>\<open>b\<close> and \<^verbatim>\<open>c\<close>, \<open>delta\<close> and the history only; above
  all not \<open>i\<close>.
\<close>

lemma try_candidate_i: "i (try_candidate f0 hm km s) = i s"
  by (simp add: try_candidate_def Let_def)

lemma semiconvergent_scan_i:
  assumes "semiconvergent_scan f0 D an m s = Some s'"
  shows "i s' = i s"
  using assms
proof (induction rule: semiconvergent_scan.raw_induct[rotated 1, consumes 1])
  case (1 scan f0 D an m s s')
  then show ?case
    by (auto simp: Let_def try_candidate_i split: if_splits)
qed

text \<open>
  The outer loop, lines 259 to 283, from the value \<open>i s\<close> of its counter on: at most
  100 expansion steps, each one the reciprocal of the remainder \<open>f\<close>, split by
  \<^verbatim>\<open>modf\<close> into the term \<^verbatim>\<open>an\<close> and the next remainder, then the scan, then the next
  convergent.
\<close>

function expansion_loop :: "real \<Rightarrow> u32 \<Rightarrow> ra_state \<Rightarrow> ra_state option" where
  "expansion_loop f0 max_denominator s =
     (if i s < 100 then
        (if f s \<le> epsilon then Some s
         else
           (let anf = modf_int (1 / f s);
                s1 = s\<lparr>f := modf_frac (1 / f s)\<rparr>;
                an = u32_of_double anf
            in case semiconvergent_scan f0 max_denominator an ((an + 1) div 2) s1 of
                 None \<Rightarrow> None
               | Some s2 \<Rightarrow>
                   (let hn = an * h1 s2 + h0 s2;
                        kn = an * k1 s2 + k0 s2
                    in expansion_loop f0 max_denominator
                         (s2\<lparr>h0 := h1 s2, h1 := hn, k0 := k1 s2, k1 := kn, i := i s2 + 1\<rparr>))))
      else Some s)"
  by pat_completeness auto
termination
  by (relation "measure (\<lambda>(f0, D, s). nat (100 - i s))")
    (auto dest!: semiconvergent_scan_i)

text \<open>
  Lines 247 to 258 and the loop: \<open>cells\<close> is what the three cells held before the call
  (the callers pass the addresses of locals that nothing has written yet). The result
  is the state of the function when it reaches \<^verbatim>\<open>return\<close>.
\<close>

definition rational_approximation_body ::
  "real \<Rightarrow> u32 \<Rightarrow> u32 \<times> u32 \<times> u32 \<Rightarrow> ra_state option" where
  "rational_approximation_body value max_denominator cells =
     (let af = modf_int value;
          f0 = modf_frac value;
          entry = \<lparr>a_out = fst cells, b_out = fst (snd cells), c_out = snd (snd cells),
                   f = f0, delta = f0, h0 = 1, h1 = 0, k0 = 0, k1 = 1, i = 0, seen = []\<rparr>
      in expansion_loop f0 max_denominator
           (entry\<lparr>a_out := u32_of_double af, b_out := 0, c_out := 1\<rparr>))"

text \<open>
  What the caller finds in the three cells after the call: \<open>None\<close> when the call
  does not return.
\<close>

definition rational_approximation ::
  "real \<Rightarrow> u32 \<Rightarrow> u32 \<times> u32 \<times> u32 \<Rightarrow> (u32 \<times> u32 \<times> u32) option" where
  "rational_approximation value max_denominator cells =
     map_option (\<lambda>s. (a_out s, b_out s, c_out s))
       (rational_approximation_body value max_denominator cells)"

declare semiconvergent_scan.simps [code]
declare expansion_loop.simps [simp del]

section \<open>Running the two loops\<close>

text \<open>One rule for each way through an iteration; they evaluate the loops on numerals.\<close>

lemma scan_done: "\<not> m \<le> an \<Longrightarrow> semiconvergent_scan f0 D an m s = Some s"
  by (subst semiconvergent_scan.simps) simp

lemma scan_break:
  "m \<le> an \<Longrightarrow> D < m * k1 s + k0 s \<Longrightarrow> semiconvergent_scan f0 D an m s = Some s"
  by (subst semiconvergent_scan.simps) (simp add: Let_def)

lemma scan_step:
  "m \<le> an \<Longrightarrow> \<not> D < m * k1 s + k0 s \<Longrightarrow>
   semiconvergent_scan f0 D an m s =
   semiconvergent_scan f0 D an (m + 1) (try_candidate f0 (m * h1 s + h0 s) (m * k1 s + k0 s) s)"
  by (subst semiconvergent_scan.simps) (simp add: Let_def)

lemma loop_done: "\<not> i s < 100 \<Longrightarrow> expansion_loop f0 D s = Some s"
  by (subst expansion_loop.simps) simp

lemma loop_break: "i s < 100 \<Longrightarrow> f s \<le> epsilon \<Longrightarrow> expansion_loop f0 D s = Some s"
  by (subst expansion_loop.simps) simp

lemma loop_step:
  "i s < 100 \<Longrightarrow> \<not> f s \<le> epsilon \<Longrightarrow>
   expansion_loop f0 D s =
     (case semiconvergent_scan f0 D (u32_of_double (modf_int (1 / f s)))
             ((u32_of_double (modf_int (1 / f s)) + 1) div 2) (s\<lparr>f := modf_frac (1 / f s)\<rparr>) of
        None \<Rightarrow> None
      | Some s2 \<Rightarrow> expansion_loop f0 D
          (s2\<lparr>h0 := h1 s2, h1 := u32_of_double (modf_int (1 / f s)) * h1 s2 + h0 s2,
              k0 := k1 s2, k1 := u32_of_double (modf_int (1 / f s)) * k1 s2 + k0 s2,
              i := i s2 + 1\<rparr>))"
  by (subst expansion_loop.simps) (simp add: Let_def split: option.split)

lemmas ra_eval = rational_approximation_def rational_approximation_body_def
  scan_done scan_break scan_step loop_done loop_break loop_step
  try_candidate_def approx_error_def modf_int_def modf_frac_def u32_of_double_def
  double_of_u32_def epsilon_def Let_def word_le_nat_alt word_less_nat_alt

section \<open>Both loops return\<close>

lemma unat_max_u32: "unat (- 1 :: u32) = 4294967295"
  by (simp add: unsigned_minus_1_eq_mask mask_eq_exp_minus_1)

lemma unat_lt_u32: "unat (w :: u32) < 4294967296"
  using unsigned_less[of w, where 'a = nat] by simp

lemma unat_below_max: "an \<noteq> (- 1 :: u32) \<Longrightarrow> unat an < 4294967295"
  using unat_lt_u32[of an] unat_max_u32 by (auto simp: word_unat_eq_iff)

lemma unat_succ_u32: "an \<noteq> (- 1 :: u32) \<Longrightarrow> m \<le> an \<Longrightarrow> unat (m + 1) = Suc (unat m)"
  using unat_below_max[of an] by (simp add: word_le_nat_alt unat_word_ariths)

text \<open>The scan returns whenever its bound \<^verbatim>\<open>an\<close> is not the largest word.\<close>

lemma scan_returns:
  assumes "an \<noteq> - 1"
  shows "\<exists>s'. semiconvergent_scan f0 D an m s = Some s'"
proof (induction "Suc (unat an) - unat m" arbitrary: m s)
  case 0
  then have "\<not> m \<le> an"
    by (simp add: word_le_nat_alt)
  then show ?case
    by (simp add: scan_done)
next
  case (Suc n)
  show ?case
  proof (cases "m \<le> an")
    case False
    then show ?thesis by (simp add: scan_done)
  next
    case le: True
    show ?thesis
    proof (cases "D < m * k1 s + k0 s")
      case True
      with le show ?thesis by (simp add: scan_break)
    next
      case False
      from assms le have "unat (m + 1) = Suc (unat m)"
        by (rule unat_succ_u32)
      with Suc.hyps(2) have "n = Suc (unat an) - unat (m + 1)"
        by simp
      from Suc.hyps(1)[OF this] le False show ?thesis
        by (simp add: scan_step)
    qed
  qed
qed

text \<open>
  The outer loop only divides by a remainder above \<open>epsilon\<close>, so the term \<^verbatim>\<open>an\<close> is
  below 100000: the cast of line 265 is in range and the scan's bound is harmless.
\<close>

lemma term_below_100000:
  assumes "epsilon < x"
  shows "unat (u32_of_double (modf_int (1 / x))) = nat \<lfloor>1 / x\<rfloor>"
    and "nat \<lfloor>1 / x\<rfloor> < 100000"
proof -
  from assms have pos: "0 < x" by (simp add: epsilon_def)
  from assms have "1 / x < 100000"
    using pos by (simp add: epsilon_def field_simps)
  then have lt: "\<lfloor>1 / x\<rfloor> < 100000" by linarith
  moreover from pos have ge: "0 \<le> \<lfloor>1 / x\<rfloor>" by simp
  ultimately have "unat (word_of_int \<lfloor>1 / x\<rfloor> :: u32) = nat \<lfloor>1 / x\<rfloor>"
    by (simp add: unat_eq_nat_uint word_of_int_inverse[symmetric] uint_word_of_int)
  with pos show "unat (u32_of_double (modf_int (1 / x))) = nat \<lfloor>1 / x\<rfloor>"
    by (simp add: u32_of_double_def modf_int_def)
  from lt ge show "nat \<lfloor>1 / x\<rfloor> < 100000" by linarith
qed

lemma term_in_range:
  assumes "epsilon < x"
  shows "u32_of_double (modf_int (1 / x)) \<noteq> - 1"
  using term_below_100000[OF assms] unat_max_u32 by force

lemma expansion_loop_returns:
  "\<exists>s'. expansion_loop f0 D s = Some s' \<and> (i s \<le> 100 \<longrightarrow> i s \<le> i s' \<and> i s' \<le> 100)"
proof (induction f0 D s rule: expansion_loop.induct)
  case (1 f0 D s)
  show ?case
  proof (cases "i s < 100")
    case False
    then show ?thesis by (simp add: loop_done)
  next
    case lt: True
    show ?thesis
    proof (cases "f s \<le> epsilon")
      case True
      with lt show ?thesis by (simp add: loop_break)
    next
      case False
      define an where "an = u32_of_double (modf_int (1 / f s))"
      have "an \<noteq> - 1"
        unfolding an_def using False by (intro term_in_range) simp
      then obtain s2 where s2:
        "semiconvergent_scan f0 D an ((an + 1) div 2) (s\<lparr>f := modf_frac (1 / f s)\<rparr>) = Some s2"
        using scan_returns by blast
      have i2: "i s2 = i s"
        using semiconvergent_scan_i[OF s2] by simp
      from "1.IH"[OF lt False refl refl, folded an_def, OF refl s2 refl refl]
      obtain s' where "expansion_loop f0 D
         (s2\<lparr>h0 := h1 s2, h1 := an * h1 s2 + h0 s2, k0 := k1 s2, k1 := an * k1 s2 + k0 s2,
             i := i s2 + 1\<rparr>) = Some s'"
        and "i s2 + 1 \<le> 100 \<longrightarrow> i s2 + 1 \<le> i s' \<and> i s' \<le> 100"
        by auto
      with lt False s2 i2 show ?thesis
        by (simp add: loop_step an_def[symmetric])
    qed
  qed
qed

lemma body_returns:
  "\<exists>s. rational_approximation_body value D cells = Some s \<and> 0 \<le> i s \<and> i s \<le> 100"
proof -
  let ?s0 = "\<lparr>a_out = u32_of_double (modf_int value), b_out = 0, c_out = 1,
              f = modf_frac value, delta = modf_frac value,
              h0 = 1, h1 = 0, k0 = 0, k1 = 1, i = 0, seen = []\<rparr>"
  obtain s where "expansion_loop (modf_frac value) D ?s0 = Some s"
    and "i ?s0 \<le> 100 \<longrightarrow> i ?s0 \<le> i s \<and> i s \<le> 100"
    using expansion_loop_returns[of "modf_frac value" D ?s0] by blast
  then show ?thesis
    by (simp add: rational_approximation_body_def Let_def)
qed

lemma rational_approximation_returns: "\<exists>abc. rational_approximation value D cells = Some abc"
  using body_returns[of "value" D cells] by (auto simp: rational_approximation_def)

section \<open>Invariants of the two loops\<close>

text \<open>
  A property of the state that every candidate test keeps, and that does not depend on
  \<open>f\<close>, \<open>h\<close>, \<open>k\<close> and \<open>i\<close>, holds when the loops return.
\<close>

lemma scan_invariant_aux:
  assumes "semiconvergent_scan f0 D an m s = Some s'"
  shows "(\<forall>hm km t. Q t \<longrightarrow> km \<le> D \<longrightarrow> Q (try_candidate f0 hm km t)) \<longrightarrow> Q s \<longrightarrow> Q s'"
  using assms
proof (induction rule: semiconvergent_scan.raw_induct[rotated 1, consumes 1])
  case (1 scan f0 D an m s s')
  then show ?case
    by (auto simp: Let_def split: if_splits)
qed

lemma scan_invariant:
  assumes "semiconvergent_scan f0 D an m s = Some s'"
    and "Q s"
    and "\<And>hm km t. Q t \<Longrightarrow> km \<le> D \<Longrightarrow> Q (try_candidate f0 hm km t)"
  shows "Q s'"
  using scan_invariant_aux[OF assms(1), of Q] assms(2,3) by blast

lemma expansion_loop_invariant_aux:
  "expansion_loop f0 D s = Some s' \<Longrightarrow> Q s \<Longrightarrow>
   (\<And>hm km t. Q t \<Longrightarrow> km \<le> D \<Longrightarrow> Q (try_candidate f0 hm km t)) \<Longrightarrow>
   (\<And>t x. Q t \<Longrightarrow> Q (t\<lparr>f := x\<rparr>)) \<Longrightarrow>
   (\<And>t a b c d e. Q t \<Longrightarrow> Q (t\<lparr>h0 := a, h1 := b, k0 := c, k1 := d, i := e\<rparr>)) \<Longrightarrow>
   Q s'"
proof (induction f0 D s rule: expansion_loop.induct)
  case (1 f0 D s)
  show ?case
  proof (cases "i s < 100 \<and> \<not> f s \<le> epsilon")
    case False
    with "1.prems"(1,2) show ?thesis
      by (cases "i s < 100") (auto simp: loop_done loop_break)
  next
    case True
    define an where "an = u32_of_double (modf_int (1 / f s))"
    from True "1.prems"(1) obtain s2 where
      s2: "semiconvergent_scan f0 D an ((an + 1) div 2) (s\<lparr>f := modf_frac (1 / f s)\<rparr>) = Some s2"
      and rest: "expansion_loop f0 D
         (s2\<lparr>h0 := h1 s2, h1 := an * h1 s2 + h0 s2, k0 := k1 s2, k1 := an * k1 s2 + k0 s2,
             i := i s2 + 1\<rparr>) = Some s'"
      by (auto simp: loop_step an_def split: option.splits)
    have "Q (s\<lparr>f := modf_frac (1 / f s)\<rparr>)"
      using "1.prems"(2,4) by blast
    then have "Q s2"
      using "1.prems"(3) by (intro scan_invariant[OF s2, of Q]) auto
    then have "Q (s2\<lparr>h0 := h1 s2, h1 := an * h1 s2 + h0 s2, k0 := k1 s2,
          k1 := an * k1 s2 + k0 s2, i := i s2 + 1\<rparr>)"
      using "1.prems"(5) by blast
    with True show ?thesis
      using "1.IH"[OF _ _ refl refl, folded an_def, OF _ _ refl s2 refl refl rest]
        "1.prems"(3,4,5) by blast
  qed
qed

text \<open>
  Two such properties follow. They are devices of the proofs; the claims below are
  stated without them.

  The first one: the result cells hold \<open>0/1\<close>, \<open>1/1\<close> or a proper fraction \<open>0 < b < c\<close> with
  \<open>c\<close> within the bound, and \<open>delta\<close> is at most the distance of the fractional part
  \<open>f0\<close> to 0 and to 1.
\<close>

lemma close_fraction_proper:
  fixes hm km :: u32
  assumes "km \<noteq> 0" and "approx_error f0 hm km < d" and "d \<le> f0" and "d \<le> 1 - f0"
  shows "0 < hm \<and> hm < km"
proof -
  let ?h = "real (unat hm)" and ?k = "real (unat km)"
  from assms(1) have "0 < unat km"
    by (simp add: unat_gt_0)
  then have k: "0 < ?k"
    by (simp only: of_nat_0_less_iff)
  from assms(2) have "\<bar>?h / ?k - f0\<bar> < d"
    by (simp add: approx_error_def double_of_u32_def)
  with assms(3,4) have "0 < ?h / ?k" and "?h / ?k < 1"
    by linarith+
  with k have "0 < ?h" and "?h < ?k"
    by (simp_all add: zero_less_divide_iff)
  then have "0 < unat hm" and "unat hm < unat km"
    by (simp_all only: of_nat_0_less_iff of_nat_less_iff)
  then show ?thesis
    by (simp add: word_less_nat_alt)
qed

definition proper :: "real \<Rightarrow> u32 \<Rightarrow> ra_state \<Rightarrow> bool" where
  "proper f0 D s \<longleftrightarrow>
     c_out s \<noteq> 0 \<and> c_out s \<le> D \<and> delta s \<le> f0 \<and> delta s \<le> 1 - f0 \<and>
     (b_out s = 0 \<and> c_out s = 1 \<or> b_out s = 1 \<and> c_out s = 1 \<or> 0 < b_out s \<and> b_out s < c_out s)"

lemma try_candidate_proper:
  assumes "proper f0 D s" and "km \<le> D"
  shows "proper f0 D (try_candidate f0 hm km s)"
proof (cases "km \<noteq> 0 \<and> approx_error f0 hm km < delta s")
  case False
  with assms(1) show ?thesis
    by (auto simp: proper_def try_candidate_def Let_def)
next
  case True
  with assms(1) have "0 < hm \<and> hm < km"
    by (intro close_fraction_proper[of km f0 hm "delta s"]) (simp_all add: proper_def)
  with True assms show ?thesis
    by (auto simp: proper_def try_candidate_def Let_def)
qed

lemma expansion_loop_proper:
  assumes "expansion_loop f0 D s = Some s'" and "proper f0 D s"
  shows "proper f0 D s'"
  using assms(1,2)
proof (rule expansion_loop_invariant_aux[where Q = "proper f0 D"])
  show "proper f0 D (try_candidate f0 hm km t)" if "proper f0 D t" "km \<le> D" for hm km t
    using that by (rule try_candidate_proper)
  show "proper f0 D (t\<lparr>f := x\<rparr>)" if "proper f0 D t" for t x
    using that by (simp add: proper_def)
  show "proper f0 D (t\<lparr>h0 := a, h1 := b, k0 := c, k1 := d, i := e\<rparr>)" if "proper f0 D t"
    for t a b c d e
    using that by (simp add: proper_def)
qed

text \<open>The first expansion step for a fractional part above one half.\<close>

lemma first_step_above_half:
  assumes "1 / 2 < f0" and "f0 < 1" and "D \<noteq> 0"
  shows "expansion_loop f0 D
           \<lparr>a_out = a, b_out = 0, c_out = 1, f = f0, delta = f0,
            h0 = 1, h1 = 0, k0 = 0, k1 = 1, i = 0, seen = []\<rparr> =
         expansion_loop f0 D
           \<lparr>a_out = a, b_out = 1, c_out = 1, f = modf_frac (1 / f0), delta = 1 - f0,
            h0 = 0, h1 = 1, k0 = 1, k1 = 1, i = 1, seen = [(1, 1)]\<rparr>"
proof -
  from assms(1,2) have "1 < 1 / f0" and "1 / f0 < 2"
    by (simp_all add: field_simps)
  then have fl: "\<lfloor>1 / f0\<rfloor> = 1"
    by linarith
  from assms(1) have pos: "0 \<le> 1 / f0" by simp
  have an: "u32_of_double (modf_int (1 / f0)) = 1"
    using fl pos by (simp add: u32_of_double_def modf_int_def)
  from assms(3) have D: "\<not> D < 1"
    by simp
  have err: "approx_error f0 1 1 = 1 - f0"
    using assms(2) by (simp add: approx_error_def double_of_u32_def)
  have two: "\<not> (1 + 1 :: u32) \<le> 1"
    by (simp add: word_le_nat_alt)
  show ?thesis
    using assms(1) D two
    by (simp add: loop_step epsilon_def an scan_step scan_done try_candidate_def err Let_def)
qed

lemma modf_frac_less_1: "modf_frac x < 1"
  by (simp add: modf_frac_def modf_int_def) linarith







section \<open>The claims about the rational approximation\<close>

lemma result_shape:
  assumes "1 \<le> max_denominator"
    and "rational_approximation value max_denominator cells = Some (a, b, c)"
  shows "1 \<le> c \<and> c \<le> max_denominator
         \<and> (b = 0 \<and> c = 1 \<or> b = 1 \<and> c = 1 \<or> 0 < b \<and> b < c)"
proof -
  define f0 where "f0 = modf_frac value"
  define s0 where "s0 = \<lparr>a_out = u32_of_double (modf_int value), b_out = 0, c_out = 1,
      f = f0, delta = f0, h0 = 1, h1 = 0, k0 = 0, k1 = 1, i = 0, seen = []\<rparr>"
  from assms(1) have D0: "max_denominator \<noteq> 0"
    by auto
  from assms(2) obtain s where run: "expansion_loop f0 max_denominator s0 = Some s"
    and res: "a_out s = a" "b_out s = b" "c_out s = c"
    by (auto simp: rational_approximation_def rational_approximation_body_def Let_def
        f0_def s0_def)
  have lt1: "f0 < 1"
    unfolding f0_def by (rule modf_frac_less_1)
  have "proper f0 max_denominator s"
  proof (cases "f0 \<le> 1 / 2")
    case True
    with assms(1) have "proper f0 max_denominator s0"
      by (simp add: proper_def s0_def)
    with run show ?thesis
      by (rule expansion_loop_proper)
  next
    case False
    then have half: "1 / 2 < f0" by simp
    let ?s1 = "\<lparr>a_out = u32_of_double (modf_int value), b_out = 1, c_out = 1,
        f = modf_frac (1 / f0), delta = 1 - f0,
        h0 = 0, h1 = 1, k0 = 1, k1 = 1, i = 1, seen = [(1, 1)]\<rparr>"
    from run have "expansion_loop f0 max_denominator ?s1 = Some s"
      unfolding s0_def first_step_above_half[OF half lt1 D0] .
    moreover from half assms(1) have "proper f0 max_denominator ?s1"
      by (simp add: proper_def)
    ultimately show ?thesis
      by (rule expansion_loop_proper)
  qed
  with res D0 show ?thesis
    by (auto simp: proper_def word_le_nat_alt unat_gt_0 Suc_le_eq)
qed


text \<open>
  C1, as amended: for every value and every bound \<open>D \<ge> 1\<close> the call returns a triple
  with \<open>1 \<le> c \<le> D\<close> and either \<open>b = 0\<close> and \<open>c = 1\<close>, or \<open>b = 1\<close> and \<open>c = 1\<close>, or
  \<open>0 < b < c\<close>.
\<close>

theorem result_in_range:
  assumes "1 \<le> max_denominator"
  shows "\<exists>a b c. rational_approximation value max_denominator cells = Some (a, b, c)
           \<and> 1 \<le> c \<and> c \<le> max_denominator
           \<and> (b = 0 \<and> c = 1 \<or> b = 1 \<and> c = 1 \<or> 0 < b \<and> b < c)"
proof -
  obtain a b c where run: "rational_approximation value max_denominator cells = Some (a, b, c)"
    using rational_approximation_returns[of "value" max_denominator cells]
    by (metis prod_cases3)
  from result_shape[OF assms run] run show ?thesis
    by blast
qed

theorem result_in_range_witness:
  "(1::u32) \<le> 1048575
   \<and> rational_approximation (355 / 113) 1048575 (0, 0, 0) = Some (3, 16, 113)
   \<and> (1::u32) \<le> 113 \<and> (113::u32) \<le> 1048575 \<and> (0::u32) < 16 \<and> (16::u32) < 113"
proof -
  have bound: "(1::u32) \<le> 1048575"
    by simp
  have run: "rational_approximation (355 / 113) 1048575 (0, 0, 0) = Some (3, 16, 113)"
    by (simp add: ra_eval)
  show ?thesis
    using bound run result_in_range[OF bound, of "355 / 113" "(0, 0, 0)"] by simp
qed

text \<open>
  The claim C1 as it is written allows only \<open>b = 0, c = 1\<close> and \<open>0 < b < c\<close>. For the
  value \<open>16 - 2^-21\<close> and the bound 1048575 that the program uses, the first expansion
  step has the term 1, the scan tries \<open>1/1\<close>, whose error \<open>2^-21\<close> is below the error
  of \<open>0/1\<close>, and the next remainder is below \<open>epsilon\<close>: the call returns \<open>15 + 1/1\<close>.
\<close>

theorem result_in_range_counterexample:
  "rational_approximation (33554431 / 2097152) 1048575 (0, 0, 0) = Some (15, 1, 1)
   \<and> \<not> (case rational_approximation (33554431 / 2097152) 1048575 (0, 0, 0) of
          None \<Rightarrow> False
        | Some (a, b, c) \<Rightarrow>
            1 \<le> c \<and> c \<le> 1048575 \<and> (b = 0 \<and> c = 1 \<or> 0 < b \<and> b < c))"
proof -
  have run: "rational_approximation (33554431 / 2097152) 1048575 (0, 0, 0) = Some (15, 1, 1)"
    by (simp add: ra_eval)
  show ?thesis
    unfolding run by simp
qed




text \<open>
  C6. For every value and every \<^verbatim>\<open>max_denominator\<close> the call returns: the outer loop
  makes at most 100 expansion steps (its counter \<open>i\<close> ends between 0 and 100), every
  scan inside it comes to an end (the body reaches \<^verbatim>\<open>return\<close>, so no scan ran for
  ever), and the caller gets three cells back; the function has no other outcome.
\<close>

theorem rational_approximation_terminates:
  "\<exists>s. rational_approximation_body value max_denominator cells = Some s
       \<and> 0 \<le> i s \<and> i s \<le> 100
       \<and> rational_approximation value max_denominator cells = Some (a_out s, b_out s, c_out s)"
proof -
  obtain s where "rational_approximation_body value max_denominator cells = Some s"
    and "0 \<le> i s" and "i s \<le> 100"
    using body_returns by blast
  then show ?thesis
    by (simp add: rational_approximation_def)
qed

text \<open>
  C8. The result depends on the value and the bound alone: whatever the three result
  cells held before the call, the call leaves the same triple in them; so a second
  call with the same value and bound, which finds in the cells what the first call
  left there, returns the same triple again. The function reads nothing else; it has
  no static and no global variable.
\<close>

theorem rational_approximation_deterministic:
  "rational_approximation value max_denominator cells =
     rational_approximation value max_denominator cells'
   \<and> (\<forall>r. rational_approximation value max_denominator cells = Some r \<longrightarrow>
          rational_approximation value max_denominator r = Some r)"
proof -
  have same: "rational_approximation value max_denominator c1 =
      rational_approximation value max_denominator c2" for c1 c2
    by (simp add: rational_approximation_def rational_approximation_body_def)
  show ?thesis
    using same[of cells cells'] same[of cells] by metis
qed

theorem rational_approximation_deterministic_witness:
  "rational_approximation (355 / 113) 1048575 (0, 0, 0) = Some (3, 16, 113)
   \<and> rational_approximation (355 / 113) 1048575 (3, 16, 113) = Some (3, 16, 113)
   \<and> rational_approximation (355 / 113) 1048575 (7, 7, 7) = Some (3, 16, 113)"
proof -
  have run: "rational_approximation (355 / 113) 1048575 (0, 0, 0) = Some (3, 16, 113)"
    by (simp add: ra_eval)
  from rational_approximation_deterministic[of "355 / 113" 1048575 "(0, 0, 0)" "(7, 7, 7)"] run
  show ?thesis
    by simp
qed

text \<open>
  C9. A value whose fractional part is positive and at most \<open>epsilon = 1e-5\<close> comes
  back with \<open>b = 0\<close> and \<open>c = 1\<close>, for every bound: the test of line 260 leaves the
  loop before the first expansion step.
\<close>

theorem small_fraction_dropped:
  assumes "0 < modf_frac value" and "modf_frac value \<le> epsilon"
  shows "rational_approximation value max_denominator cells =
           Some (u32_of_double (modf_int value), 0, 1)"
  using assms
  by (simp add: rational_approximation_def rational_approximation_body_def loop_break Let_def)

theorem small_fraction_dropped_witness:
  "0 < modf_frac (1 / 100000) \<and> modf_frac (1 / 100000) \<le> epsilon
   \<and> rational_approximation (1 / 100000) 1048575 (7, 7, 7) = Some (0, 0, 1)"
proof -
  have pos: "0 < modf_frac (1 / 100000)"
    by (simp add: modf_frac_def modf_int_def)
  have le: "modf_frac (1 / 100000) \<le> epsilon"
    by (simp add: modf_frac_def modf_int_def epsilon_def)
  show ?thesis
    using pos le small_fraction_dropped[OF pos le, of 1048575 "(7, 7, 7)"]
    by (simp add: modf_int_def u32_of_double_def)
qed

text \<open>
  C7, as amended: for every integer \<open>v\<close> with \<open>0 \<le> v < 2^32\<close> and every bound the call
  returns \<open>a = v\<close>, \<open>b = 0\<close>, \<open>c = 1\<close>.
\<close>

theorem integer_value_exact:
  assumes "0 \<le> v" and "v < 4294967296"
  shows "\<exists>a. rational_approximation (of_int v) max_denominator cells = Some (a, 0, 1)
             \<and> uint a = v"
proof -
  have "modf_frac (of_int v) = 0"
    by (simp add: modf_frac_def modf_int_def)
  then have "rational_approximation (of_int v) max_denominator cells =
      Some (u32_of_double (modf_int (of_int v)), 0, 1)"
    by (simp add: rational_approximation_def rational_approximation_body_def loop_break
        epsilon_def)
  moreover have "uint (u32_of_double (modf_int (of_int v))) = v"
    using assms by (simp add: u32_of_double_def modf_int_def uint_word_of_int)
  ultimately show ?thesis by blast
qed

theorem integer_value_exact_witness:
  "(0::int) \<le> 27 \<and> (27::int) < 4294967296
   \<and> rational_approximation 27 1048575 (0, 0, 0) = Some (27, 0, 1)"
proof -
  obtain a where "rational_approximation (of_int 27) 1048575 (0, 0, 0) = Some (a, 0, 1)"
    and "uint a = 27"
    using integer_value_exact[of 27 1048575 "(0, 0, 0)"] by auto
  moreover from \<open>uint a = 27\<close> have "a = 27"
    by (simp add: word_uint_eq_iff)
  ultimately show ?thesis by simp
qed

text \<open>
  The claim C7 as it is written, for every non-negative integer, fails at \<open>v = 2^32\<close>:
  the fractional part is 0, the loop is left at once with \<open>b = 0\<close> and \<open>c = 1\<close>, and
  the cell \<^verbatim>\<open>a\<close>, a \<^verbatim>\<open>uint32_t\<close>, cannot hold \<open>2^32\<close>. The 0 in it is the low 32 bits that
  the model takes for the cast of line 251; the second half of the statement holds
  whatever the cast leaves there.
\<close>

theorem integer_value_counterexample:
  "rational_approximation 4294967296 1 (0, 0, 0) = Some (0, 0, 1)
   \<and> \<not> (case rational_approximation 4294967296 1 (0, 0, 0) of
          None \<Rightarrow> False
        | Some (a, b, c) \<Rightarrow> uint a = 4294967296 \<and> b = 0 \<and> c = 1)"
proof -
  have run: "rational_approximation 4294967296 1 (0, 0, 0) = Some (0, 0, 1)"
    by (simp add: ra_eval)
  have "uint a \<noteq> 4294967296" for a :: u32
    using uint_lt2p[of a] by simp
  then show ?thesis
    using run by (simp split: option.split prod.split)
qed

section \<open>The main program up to the end of the first scenario (lines 27 to 149)\<close>

text \<open>
  The model covers the argument check, the parsing, the range check of the reference,
  the two pre-dividers and the whole walk of the first scenario. The report lines for
  the additional clocks (lines 121 to 145) only print: they change neither the
  candidate nor the course of the loop, and are left out. The second scenario (lines
  153 to 231) is not modelled.
\<close>

definition MAX_CLOCKS :: int where
  "MAX_CLOCKS = 3"

definition SI5351_MIN_VCO_FREQ :: real where
  "SI5351_MIN_VCO_FREQ = 600000000"

definition SI5351_MAX_VCO_FREQ :: real where
  "SI5351_MAX_VCO_FREQ = 1000000000"

definition SI5351_MAX_DENOMINATOR :: u32 where
  "SI5351_MAX_DENOMINATOR = 1048575"

definition SI5351_MIN_CLKIN_FREQ :: real where
  "SI5351_MIN_CLKIN_FREQ = 10000000"

definition SI5351_MAX_CLKIN_FREQ :: real where
  "SI5351_MAX_CLKIN_FREQ = 100000000"

text \<open>
  The ways the run ends before the first scenario is over. The first, third, fourth
  and fifth are the \<^verbatim>\<open>return EXIT_FAILURE\<close> of lines 33, 44, 69 and 81.
  \<open>No_reference_argument\<close> is the run with no argument at all: \<^verbatim>\<open>argv[1]\<close> is then
  the null pointer and line 35 hands it to \<^verbatim>\<open>sscanf\<close>.
\<close>

datatype failure =
    Too_many_arguments
  | No_reference_argument
  | Xtal_out_of_range
  | Clock_too_low
  | Invalid_output_ms

text \<open>
  What the locals of \<^verbatim>\<open>main\<close> that are declared without a value hold before anything
  is stored in them: the array \<^verbatim>\<open>clks\<close> (three doubles, line 29) and the cells
  \<^verbatim>\<open>a\<close>, \<^verbatim>\<open>b\<close>, \<^verbatim>\<open>c\<close> of lines 101 to 103. C leaves these contents open; here they are
  an input of the run.
\<close>

record stack_contents =
  clks_mem :: "real list"
  abc_mem :: "u32 \<times> u32 \<times> u32"

text \<open>The variables \<^verbatim>\<open>xtal\<close>, \<^verbatim>\<open>clks\<close> and \<^verbatim>\<open>nclks\<close> after line 39.\<close>

record arguments =
  xtal_arg :: real
  clks :: "real list"
  nclks :: int

text \<open>
  The command line is the list \<open>args\<close> of the numbers that \<^verbatim>\<open>sscanf\<close> reads from
  \<^verbatim>\<open>argv[1]\<close>, \<^verbatim>\<open>argv[2]\<close>, ...: \<^verbatim>\<open>argc\<close> is \<open>length args + 1\<close> and \<^verbatim>\<open>argv[n]\<close> is
  \<open>args ! (n - 1)\<close>. The loop of lines 36 to 38, from the value \<open>n\<close> of its counter on:
\<close>

function store_clocks :: "real list \<Rightarrow> nat \<Rightarrow> real list \<Rightarrow> real list" where
  "store_clocks args n cl =
     (if n < length args + 1 then store_clocks args (n + 1) (cl[n - 2 := args ! (n - 1)])
      else cl)"
  by pat_completeness auto
termination
  by (relation "measure (\<lambda>(args, n, cl). length args + 1 - n)") auto

text \<open>Lines 31 to 39.\<close>

definition parse_arguments :: "stack_contents \<Rightarrow> real list \<Rightarrow> failure + arguments" where
  "parse_arguments stack args =
     (let argc = int (length args) + 1 in
      if argc > MAX_CLOCKS + 2 then Inl Too_many_arguments
      else if args = [] then Inl No_reference_argument
      else Inr \<lparr>xtal_arg = args ! 0, clks = store_clocks args 2 (clks_mem stack),
                nclks = argc - 2\<rparr>)"

text \<open>The loop of lines 50 to 53.\<close>

function clkin_divider :: "real \<Rightarrow> u8 \<Rightarrow> real \<times> u8" where
  "clkin_divider xtal clkin_div =
     (if xtal > 40000000 \<and> clkin_div \<le> 3 then clkin_divider (xtal / 2) (clkin_div + 1)
      else (xtal, clkin_div))"
  by pat_completeness auto
termination
  by (relation "measure (\<lambda>(xtal, d). 4 - unat d)")
    (auto simp: word_le_nat_alt unat_word_ariths)

text \<open>The loop of lines 63 to 66.\<close>

function r_divider :: "real \<Rightarrow> u8 \<Rightarrow> real \<times> u8" where
  "r_divider r_clk0 rdiv =
     (if r_clk0 < 1000000 \<and> rdiv \<le> 7 then r_divider (r_clk0 * 2) (rdiv + 1)
      else (r_clk0, rdiv))"
  by pat_completeness auto
termination
  by (relation "measure (\<lambda>(r, d). 8 - unat d)")
    (auto simp: word_le_nat_alt unat_word_ariths)

text \<open>Lines 77 and 78.\<close>

definition initial_output_ms :: "real \<Rightarrow> u32" where
  "initial_output_ms r_clk0 =
     (let output_ms = u32_of_double (SI5351_MAX_VCO_FREQ / r_clk0)
      in output_ms - output_ms mod 2)"

text \<open>
  What one pass through the body of the loop of lines 85 to 149 writes: the
  diagnostic of line 94 (candidate, \<^verbatim>\<open>f_vco\<close>, \<^verbatim>\<open>feedback_ms\<close>), or the plan of lines
  112 to 119 (candidate, \<^verbatim>\<open>f_vco\<close>, \<^verbatim>\<open>feedback_ms\<close>, the triple of the approximation,
  \<^verbatim>\<open>actual_pll_freq\<close>, \<^verbatim>\<open>actual_clk0\<close>).
\<close>

datatype iteration =
    Invalid_feedback_ms u32 real real
  | Plan u32 real real "u32 \<times> u32 \<times> u32" real real





lemma unat_minus_2: "\<not> (w :: u32) < 4 \<Longrightarrow> unat (w - 2) = unat w - 2"
  by (simp add: word_less_nat_alt unat_sub_if')

text \<open>
  The loop of lines 85 to 149, from the candidate \<open>output_ms\<close> on. It returns what the
  passes wrote, in order, and the value of \<^verbatim>\<open>output_ms\<close> at the \<^verbatim>\<open>break\<close> of line 88;
  \<open>None\<close> if a call of \<^verbatim>\<open>rational_approximation\<close> does not return. \<open>xtal\<close> is the
  reference after its pre-divider (at least 10 MHz when \<^verbatim>\<open>main\<close> gets here), \<open>cells\<close>
  what \<^verbatim>\<open>a\<close>, \<^verbatim>\<open>b\<close>, \<^verbatim>\<open>c\<close> hold before the call of line 104.
\<close>

function scenario_a_loop ::
  "u32 \<times> u32 \<times> u32 \<Rightarrow> real \<Rightarrow> real \<Rightarrow> u8 \<Rightarrow> u32 \<Rightarrow> (iteration list \<times> u32) option" where
  "scenario_a_loop cells xtal r_clk0 rdiv output_ms =
     (let f_vco = r_clk0 * double_of_u32 output_ms in
      if output_ms < 4 \<or> f_vco < SI5351_MIN_VCO_FREQ then Some ([], output_ms)
      else
        let feedback_ms = f_vco / xtal in
        if feedback_ms < 15 \<or> feedback_ms > 90 then
          map_option (\<lambda>(its, left). (Invalid_feedback_ms output_ms f_vco feedback_ms # its, left))
            (scenario_a_loop cells xtal r_clk0 rdiv (output_ms - 2))
        else
          case rational_approximation feedback_ms SI5351_MAX_DENOMINATOR cells of
            None \<Rightarrow> None
          | Some (a, b, c) \<Rightarrow>
              let actual_ratio = double_of_u32 a + double_of_u32 b / double_of_u32 c;
                  actual_pll_freq = xtal * actual_ratio;
                  actual_clk0 = actual_pll_freq / double_of_u32 output_ms / (2 ^ unat rdiv)
              in map_option
                   (\<lambda>(its, left).
                      (Plan output_ms f_vco feedback_ms (a, b, c) actual_pll_freq actual_clk0 # its,
                       left))
                   (scenario_a_loop cells xtal r_clk0 rdiv (output_ms - 2)))"
  by pat_completeness auto
termination
  by (relation "measure (\<lambda>(cells, xtal, r, d, output_ms). unat output_ms)")
    (auto simp: unat_minus_2 word_less_nat_alt)

text \<open>Lines 77 to 149: the first candidate, its check, and the loop.\<close>

definition scenario_a ::
  "u32 \<times> u32 \<times> u32 \<Rightarrow> real \<Rightarrow> real \<Rightarrow> u8 \<Rightarrow> (failure + iteration list \<times> u32) option" where
  "scenario_a cells xtal r_clk0 rdiv =
     (let output_ms = initial_output_ms r_clk0 in
      if output_ms < 4 \<or> output_ms > 900 then Some (Inl Invalid_output_ms)
      else map_option Inr (scenario_a_loop cells xtal r_clk0 rdiv output_ms))"

text \<open>
  Lines 41 to 149. A run that gets through returns \<^verbatim>\<open>clkin_div\<close>, \<^verbatim>\<open>rdiv\<close>, what the
  loop wrote and the last value of \<^verbatim>\<open>output_ms\<close>.
\<close>

definition conditioned_run ::
  "u32 \<times> u32 \<times> u32 \<Rightarrow> arguments \<Rightarrow> (failure + u8 \<times> u8 \<times> iteration list \<times> u32) option" where
  "conditioned_run cells parsed =
     (let xtal = xtal_arg parsed in
      if xtal < SI5351_MIN_CLKIN_FREQ \<or> xtal > SI5351_MAX_CLKIN_FREQ
      then Some (Inl Xtal_out_of_range)
      else
        let (xtal, clkin_div) = clkin_divider xtal 0;
            (r_clk0, rdiv) = r_divider (clks parsed ! 0) 0
        in if r_clk0 < 1000000 then Some (Inl Clock_too_low)
           else
             case scenario_a cells xtal r_clk0 rdiv of
               None \<Rightarrow> None
             | Some (Inl e) \<Rightarrow> Some (Inl e)
             | Some (Inr (its, left)) \<Rightarrow> Some (Inr (clkin_div, rdiv, its, left)))"

text \<open>Lines 27 to 149.\<close>

definition main_scenario_a ::
  "stack_contents \<Rightarrow> real list \<Rightarrow> (failure + u8 \<times> u8 \<times> iteration list \<times> u32) option" where
  "main_scenario_a stack args =
     (case parse_arguments stack args of
        Inl e \<Rightarrow> Some (Inl e)
      | Inr parsed \<Rightarrow> conditioned_run (abc_mem stack) parsed)"

declare store_clocks.simps [simp del]
declare clkin_divider.simps [simp del]
declare r_divider.simps [simp del]
declare scenario_a_loop.simps [simp del]

section \<open>The walk of the first scenario\<close>

lemma a_loop_exit:
  "output_ms < 4 \<or> r_clk0 * double_of_u32 output_ms < SI5351_MIN_VCO_FREQ \<Longrightarrow>
   scenario_a_loop cells xtal r_clk0 rdiv output_ms = Some ([], output_ms)"
  by (subst scenario_a_loop.simps) (simp add: Let_def)

lemma a_loop_reject:
  "\<not> output_ms < 4 \<Longrightarrow> \<not> r_clk0 * double_of_u32 output_ms < SI5351_MIN_VCO_FREQ \<Longrightarrow>
   r_clk0 * double_of_u32 output_ms / xtal < 15 \<or> r_clk0 * double_of_u32 output_ms / xtal > 90 \<Longrightarrow>
   scenario_a_loop cells xtal r_clk0 rdiv output_ms =
     map_option (\<lambda>(its, left).
        (Invalid_feedback_ms output_ms (r_clk0 * double_of_u32 output_ms)
           (r_clk0 * double_of_u32 output_ms / xtal) # its, left))
       (scenario_a_loop cells xtal r_clk0 rdiv (output_ms - 2))"
  by (subst scenario_a_loop.simps) (simp add: Let_def)

lemma a_loop_plan:
  "\<not> output_ms < 4 \<Longrightarrow> \<not> r_clk0 * double_of_u32 output_ms < SI5351_MIN_VCO_FREQ \<Longrightarrow>
   \<not> r_clk0 * double_of_u32 output_ms / xtal < 15 \<Longrightarrow>
   \<not> r_clk0 * double_of_u32 output_ms / xtal > 90 \<Longrightarrow>
   rational_approximation (r_clk0 * double_of_u32 output_ms / xtal) SI5351_MAX_DENOMINATOR cells
     = Some (a, b, c) \<Longrightarrow>
   scenario_a_loop cells xtal r_clk0 rdiv output_ms =
     map_option (\<lambda>(its, left).
        (Plan output_ms (r_clk0 * double_of_u32 output_ms)
           (r_clk0 * double_of_u32 output_ms / xtal) (a, b, c)
           (xtal * (double_of_u32 a + double_of_u32 b / double_of_u32 c))
           (xtal * (double_of_u32 a + double_of_u32 b / double_of_u32 c)
              / double_of_u32 output_ms / (2 ^ unat rdiv)) # its, left))
       (scenario_a_loop cells xtal r_clk0 rdiv (output_ms - 2))"
  by (subst scenario_a_loop.simps) (simp add: Let_def)


lemma a_loop_returns: "\<exists>res. scenario_a_loop cells xtal r_clk0 rdiv output_ms = Some res"
proof (induction "unat output_ms" arbitrary: output_ms rule: less_induct)
  case less
  show ?case
  proof (cases "output_ms < 4 \<or> r_clk0 * double_of_u32 output_ms < SI5351_MIN_VCO_FREQ")
    case True
    then show ?thesis by (simp add: a_loop_exit)
  next
    case go: False
    then have "unat (output_ms - 2) < unat output_ms"
      by (simp add: unat_minus_2 word_less_nat_alt)
    from less[OF this] obtain res where
      rest: "scenario_a_loop cells xtal r_clk0 rdiv (output_ms - 2) = Some res"
      by blast
    let ?fb = "r_clk0 * double_of_u32 output_ms / xtal"
    show ?thesis
    proof (cases "?fb < 15 \<or> ?fb > 90")
      case True
      with go rest show ?thesis
        by (simp add: a_loop_reject)
    next
      case False
      obtain a b c where
        "rational_approximation ?fb SI5351_MAX_DENOMINATOR cells = Some (a, b, c)"
        using rational_approximation_returns[of ?fb SI5351_MAX_DENOMINATOR cells]
        by (metis prod_cases3)
      with go False rest show ?thesis
        using a_loop_plan[of output_ms r_clk0 xtal cells a b c rdiv] by simp
    qed
  qed
qed






lemma store_clocks_step:
  "n < length args + 1 \<Longrightarrow>
   store_clocks args n cl = store_clocks args (n + 1) (cl[n - 2 := args ! (n - 1)])"
  by (subst store_clocks.simps) simp

lemma store_clocks_stop: "\<not> n < length args + 1 \<Longrightarrow> store_clocks args n cl = cl"
  by (subst store_clocks.simps) simp

lemma clkin_divider_step:
  "xtal > 40000000 \<Longrightarrow> clkin_div \<le> 3 \<Longrightarrow>
   clkin_divider xtal clkin_div = clkin_divider (xtal / 2) (clkin_div + 1)"
  by (subst clkin_divider.simps) simp

lemma clkin_divider_stop:
  "\<not> (xtal > 40000000 \<and> clkin_div \<le> 3) \<Longrightarrow> clkin_divider xtal clkin_div = (xtal, clkin_div)"
  by (subst clkin_divider.simps) auto

lemma r_divider_step:
  "r_clk0 < 1000000 \<Longrightarrow> rdiv \<le> 7 \<Longrightarrow> r_divider r_clk0 rdiv = r_divider (r_clk0 * 2) (rdiv + 1)"
  by (subst r_divider.simps) simp

lemma r_divider_stop:
  "\<not> (r_clk0 < 1000000 \<and> rdiv \<le> 7) \<Longrightarrow> r_divider r_clk0 rdiv = (r_clk0, rdiv)"
  by (subst r_divider.simps) auto

lemma a_loop_go:
  "\<not> output_ms < 4 \<Longrightarrow> \<not> r_clk0 * double_of_u32 output_ms < SI5351_MIN_VCO_FREQ \<Longrightarrow>
   scenario_a_loop cells xtal r_clk0 rdiv output_ms =
     (if r_clk0 * double_of_u32 output_ms / xtal < 15 \<or> r_clk0 * double_of_u32 output_ms / xtal > 90
      then map_option (\<lambda>(its, left).
             (Invalid_feedback_ms output_ms (r_clk0 * double_of_u32 output_ms)
                (r_clk0 * double_of_u32 output_ms / xtal) # its, left))
             (scenario_a_loop cells xtal r_clk0 rdiv (output_ms - 2))
      else case rational_approximation (r_clk0 * double_of_u32 output_ms / xtal)
                  SI5351_MAX_DENOMINATOR cells of
             None \<Rightarrow> None
           | Some (a, b, c) \<Rightarrow>
               map_option (\<lambda>(its, left).
                 (Plan output_ms (r_clk0 * double_of_u32 output_ms)
                    (r_clk0 * double_of_u32 output_ms / xtal) (a, b, c)
                    (xtal * (double_of_u32 a + double_of_u32 b / double_of_u32 c))
                    (xtal * (double_of_u32 a + double_of_u32 b / double_of_u32 c)
                       / double_of_u32 output_ms / (2 ^ unat rdiv)) # its, left))
                 (scenario_a_loop cells xtal r_clk0 rdiv (output_ms - 2)))"
  by (subst scenario_a_loop.simps) (simp add: Let_def split: option.split)

lemmas main_eval = main_scenario_a_def parse_arguments_def conditioned_run_def scenario_a_def
  initial_output_ms_def store_clocks_step store_clocks_stop clkin_divider_step clkin_divider_stop
  r_divider_step r_divider_stop a_loop_exit a_loop_go
  MAX_CLOCKS_def SI5351_MIN_VCO_FREQ_def SI5351_MAX_VCO_FREQ_def SI5351_MAX_DENOMINATOR_def
  SI5351_MIN_CLKIN_FREQ_def SI5351_MAX_CLKIN_FREQ_def

section \<open>The two pre-dividers\<close>

text \<open>
  The loop of lines 63 to 66 stops with \<^verbatim>\<open>rdiv\<close> at most 8 and \<^verbatim>\<open>r_clk0\<close> the clock
  times \<open>2 ^ rdiv\<close>; it leaves \<^verbatim>\<open>r_clk0\<close> below 1 MHz, so that line 67 stops the
  run, exactly when 256 times the clock is below 1 MHz. The reference stays at or
  above 10 MHz through its pre-divider, and the first scenario is entered only with
  \<^verbatim>\<open>r_clk0\<close> at or above 1 MHz.
\<close>

lemma u8_succ: "(d :: u8) \<le> 7 \<Longrightarrow> unat (d + 1) = Suc (unat d)"
  by (simp add: word_le_nat_alt unat_word_ariths)

lemma u8_succ_le: "(d :: u8) \<le> 7 \<Longrightarrow> d + 1 \<le> 8"
  using u8_succ[of d] by (simp add: word_le_nat_alt)

lemma u8_eq_8: "(d :: u8) \<le> 8 \<Longrightarrow> \<not> d \<le> 7 \<Longrightarrow> d = 8"
  by (simp add: word_le_nat_alt word_unat_eq_iff)

lemma r_divider_exponent:
  "r_divider r_clk0 rdiv = (r', d) \<Longrightarrow> rdiv \<le> 8 \<Longrightarrow>
   d \<le> 8 \<and> rdiv \<le> d \<and> r' = r_clk0 * 2 ^ (unat d - unat rdiv)
   \<and> (r' < 1000000 \<longrightarrow> d = 8)"
proof (induction r_clk0 rdiv rule: r_divider.induct)
  case (1 r_clk0 rdiv)
  show ?case
  proof (cases "r_clk0 < 1000000 \<and> rdiv \<le> 7")
    case False
    with "1.prems"(1) have eq: "r' = r_clk0" "d = rdiv"
      by (simp_all add: r_divider_stop)
    have "r' < 1000000 \<longrightarrow> d = 8"
      using False "1.prems"(2) u8_eq_8[of rdiv] unfolding eq by blast
    with "1.prems"(2) show ?thesis
      unfolding eq by simp
  next
    case True
    then have next_le: "rdiv + 1 \<le> 8" and un: "unat (rdiv + 1) = Suc (unat rdiv)"
      by (simp_all add: u8_succ u8_succ_le)
    from True "1.prems"(1) have "r_divider (r_clk0 * 2) (rdiv + 1) = (r', d)"
      by (simp add: r_divider_step)
    from "1.IH"[OF True this next_le]
    have d: "d \<le> 8" and le: "rdiv + 1 \<le> d"
      and r': "r' = r_clk0 * 2 * 2 ^ (unat d - unat (rdiv + 1))"
      and low: "r' < 1000000 \<longrightarrow> d = 8"
      by blast+
    from le have lt: "unat rdiv < unat d"
      unfolding word_le_nat_alt un by simp
    then have "unat d - unat rdiv = Suc (unat d - unat (rdiv + 1))"
      unfolding un by simp
    with r' have "r' = r_clk0 * 2 ^ (unat d - unat rdiv)"
      by simp
    moreover from lt have "rdiv \<le> d"
      unfolding word_le_nat_alt by simp
    ultimately show ?thesis
      using d low by blast
  qed
qed

lemma r_divider_too_low:
  "fst (r_divider clk 0) < 1000000 \<longleftrightarrow> clk * 256 < 1000000"
proof -
  obtain r' d where rd: "r_divider clk 0 = (r', d)"
    by (cases "r_divider clk 0")
  from r_divider_exponent[OF rd] have d: "d \<le> 8" and r': "r' = clk * 2 ^ unat d"
    and low: "r' < 1000000 \<longrightarrow> d = 8"
    by simp_all
  show ?thesis
  proof
    assume "fst (r_divider clk 0) < 1000000"
    with rd low have "d = 8" by simp
    with r' \<open>fst (r_divider clk 0) < 1000000\<close> rd show "clk * 256 < 1000000"
      by simp
  next
    assume small: "clk * 256 < 1000000"
    from d have "unat d \<le> 8"
      by (simp add: word_le_nat_alt)
    then have "(2::real) ^ unat d \<le> 2 ^ 8"
      by (intro power_increasing) simp_all
    then have p: "(2::real) ^ unat d \<le> 256" by simp
    have "clk * 2 ^ unat d < 1000000"
    proof (cases "0 \<le> clk")
      case True
      then have "clk * 2 ^ unat d \<le> clk * 256"
        using p by (intro mult_left_mono)
      with small show ?thesis by simp
    next
      case False
      then have "clk * 2 ^ unat d < 0"
        by (simp add: mult_less_0_iff)
      then show ?thesis by simp
    qed
    with rd r' show "fst (r_divider clk 0) < 1000000"
      by simp
  qed
qed

lemma clkin_divider_lower:
  "clkin_divider xtal d = (xtal', d') \<Longrightarrow> 10000000 \<le> xtal \<Longrightarrow> 10000000 \<le> xtal'"
proof (induction xtal d rule: clkin_divider.induct)
  case (1 xtal clkin_div)
  show ?case
  proof (cases "xtal > 40000000 \<and> clkin_div \<le> 3")
    case True
    with "1.prems"(1) have "clkin_divider (xtal / 2) (clkin_div + 1) = (xtal', d')"
      by (simp add: clkin_divider_step)
    moreover from True have "10000000 \<le> xtal / 2" by simp
    ultimately show ?thesis
      using "1.IH"[OF True] by blast
  next
    case False
    with "1.prems" show ?thesis
      by (simp add: clkin_divider_stop)
  qed
qed

lemma main_reaches_scenario_a:
  assumes "main_scenario_a stack args = Some (Inr (clkin_div, rdiv, its, left))"
  shows "\<exists>xtal r_clk0. 10000000 \<le> xtal \<and> 1000000 \<le> r_clk0 \<and>
           scenario_a (abc_mem stack) xtal r_clk0 rdiv = Some (Inr (its, left))"
proof -
  from assms obtain parsed where parsed: "parse_arguments stack args = Inr parsed"
    and run: "conditioned_run (abc_mem stack) parsed = Some (Inr (clkin_div, rdiv, its, left))"
    by (auto simp: main_scenario_a_def split: sum.splits)
  obtain xtal cd where cd: "clkin_divider (xtal_arg parsed) 0 = (xtal, cd)"
    by (cases "clkin_divider (xtal_arg parsed) 0")
  obtain r_clk0 rd where rd: "r_divider (clks parsed ! 0) 0 = (r_clk0, rd)"
    by (cases "r_divider (clks parsed ! 0) 0")
  from run have ref: "10000000 \<le> xtal_arg parsed"
    by (auto simp: conditioned_run_def Let_def SI5351_MIN_CLKIN_FREQ_def split: if_splits)
  from run cd rd ref have "1000000 \<le> r_clk0"
    and "scenario_a (abc_mem stack) xtal r_clk0 rdiv = Some (Inr (its, left))"
    by (auto simp: conditioned_run_def Let_def SI5351_MIN_CLKIN_FREQ_def
        split: if_splits option.splits sum.splits)
  moreover from clkin_divider_lower[OF cd ref] have "10000000 \<le> xtal" .
  ultimately show ?thesis by blast
qed

section \<open>The claims about the main program\<close>







text \<open>
  C5 does not hold of the code. The test \<^verbatim>\<open>rdiv <= 7\<close> of line 63 is made before the
  doubling, so the loop doubles once more when \<^verbatim>\<open>rdiv\<close> is 7: for a primary clock of
  5000 Hz seven doublings give 640000 Hz, below 1 MHz, and the run does not stop at
  line 69 but goes on with eight doublings and \<^verbatim>\<open>rdiv = 8\<close>. In general the run
  stops at line 69 exactly when eight doublings do not reach 1 MHz
  (\<open>r_divider_too_low\<close>).
\<close>

theorem r_divider_eight_doublings:
  "r_divider 5000 0 = (1280000, 8)
   \<and> (\<exists>its left. main_scenario_a \<lparr>clks_mem = [0, 0, 0], abc_mem = (0, 0, 0)\<rparr> [25000000, 5000]
          = Some (Inr (0, 8, its, left)))"
proof -
  have rd: "r_divider 5000 0 = (1280000, 8)"
    by (simp add: r_divider_step r_divider_stop word_le_nat_alt)
  have cd: "clkin_divider 25000000 0 = (25000000, 0)"
    by (simp add: clkin_divider_stop)
  have init: "initial_output_ms 1280000 = 780"
    by (simp add: initial_output_ms_def SI5351_MAX_VCO_FREQ_def u32_of_double_def Let_def)
  obtain its left where "scenario_a_loop (0, 0, 0) 25000000 1280000 8 780 = Some (its, left)"
    using a_loop_returns[of "(0, 0, 0)" 25000000 1280000 8 780] by auto
  then have "scenario_a (0, 0, 0) 25000000 1280000 8 = Some (Inr (its, left))"
    by (simp add: scenario_a_def init word_less_nat_alt)
  then have "main_scenario_a \<lparr>clks_mem = [0, 0, 0], abc_mem = (0, 0, 0)\<rparr> [25000000, 5000]
      = Some (Inr (0, 8, its, left))"
    by (simp add: main_scenario_a_def parse_arguments_def conditioned_run_def rd cd
        store_clocks_step store_clocks_stop MAX_CLOCKS_def SI5351_MIN_CLKIN_FREQ_def
        SI5351_MAX_CLKIN_FREQ_def)
  with rd show ?thesis
    by blast
qed

lemma conditioned_run_not_too_many: "conditioned_run cells parsed \<noteq> Some (Inl Too_many_arguments)"
proof -
  have "scenario_a cells xtal r_clk0 rdiv \<noteq> Some (Inl Too_many_arguments)" for xtal r_clk0 rdiv
    by (auto simp: scenario_a_def Let_def)
  then show ?thesis
    by (auto simp: conditioned_run_def Let_def split: prod.splits option.splits sum.splits)
qed

text \<open>
  C10. The check of line 31 stops the run exactly when there are more than four
  numbers on the command line. With the reference alone on the command line the
  parsing succeeds with \<^verbatim>\<open>nclks = 0\<close> and leaves the array \<^verbatim>\<open>clks\<close> as it was found;
  the run goes on, and since line 61 reads \<^verbatim>\<open>clks[0]\<close> all the same, it is the run
  that has the found content of that slot as its primary clock.
\<close>

theorem argument_validation:
  "(main_scenario_a stack args = Some (Inl Too_many_arguments)) = (4 < length args)
   \<and> parse_arguments stack [x] = Inr \<lparr>xtal_arg = x, clks = clks_mem stack, nclks = 0\<rparr>
   \<and> main_scenario_a stack [x] =
       conditioned_run (abc_mem stack) \<lparr>xtal_arg = x, clks = clks_mem stack, nclks = 0\<rparr>
   \<and> (clks_mem stack \<noteq> [] \<longrightarrow>
        main_scenario_a stack [x] = main_scenario_a stack [x, clks_mem stack ! 0])"
proof -
  have parse1: "parse_arguments stack [x] = Inr \<lparr>xtal_arg = x, clks = clks_mem stack, nclks = 0\<rparr>"
    by (simp add: parse_arguments_def MAX_CLOCKS_def store_clocks_stop)
  have many: "(main_scenario_a stack args = Some (Inl Too_many_arguments)) = (4 < length args)"
  proof (cases "4 < length args")
    case True
    then show ?thesis
      by (simp add: main_scenario_a_def parse_arguments_def MAX_CLOCKS_def)
  next
    case False
    then show ?thesis
      using conditioned_run_not_too_many
      by (auto simp: main_scenario_a_def parse_arguments_def MAX_CLOCKS_def Let_def)
  qed
  have parse2: "parse_arguments stack [x, c] =
      Inr \<lparr>xtal_arg = x, clks = (clks_mem stack)[0 := c], nclks = 1\<rparr>" for c
    by (simp add: parse_arguments_def MAX_CLOCKS_def store_clocks_step store_clocks_stop)
  have "conditioned_run cells \<lparr>xtal_arg = x, clks = cl, nclks = n\<rparr> =
        conditioned_run cells \<lparr>xtal_arg = x, clks = cl', nclks = n'\<rparr>"
    if "cl ! 0 = cl' ! 0" for cells cl cl' n n'
    using that by (simp add: conditioned_run_def)
  then have "main_scenario_a stack [x] = main_scenario_a stack [x, clks_mem stack ! 0]"
    if "clks_mem stack \<noteq> []"
    using that by (simp add: main_scenario_a_def parse1 parse2)
  with parse1 many show ?thesis
    by (simp add: main_scenario_a_def)
qed

theorem argument_validation_witness:
  "[155000000, 0, 0] \<noteq> ([] :: real list)
   \<and> main_scenario_a \<lparr>clks_mem = [155000000, 0, 0], abc_mem = (0, 0, 0)\<rparr> [40000000] =
       Some (Inr (0, 0, [Plan 6 930000000 (93 / 4) (23, 1, 4) 930000000 155000000,
                         Plan 4 620000000 (31 / 2) (15, 1, 2) 620000000 155000000], 2))
   \<and> main_scenario_a \<lparr>clks_mem = [155000000, 0, 0], abc_mem = (0, 0, 0)\<rparr> [40000000, 155000000] =
       Some (Inr (0, 0, [Plan 6 930000000 (93 / 4) (23, 1, 4) 930000000 155000000,
                         Plan 4 620000000 (31 / 2) (15, 1, 2) 620000000 155000000], 2))
   \<and> main_scenario_a \<lparr>clks_mem = [0, 0, 0], abc_mem = (0, 0, 0)\<rparr> [40000000] =
       Some (Inl Clock_too_low)
   \<and> main_scenario_a \<lparr>clks_mem = [0, 0, 0], abc_mem = (0, 0, 0)\<rparr>
         [40000000, 1, 2, 3, 4] = Some (Inl Too_many_arguments)"
proof -
  let ?stack = "\<lparr>clks_mem = [155000000, 0, 0], abc_mem = (0, 0, 0)\<rparr>"
  have run: "main_scenario_a ?stack [40000000, 155000000] =
       Some (Inr (0, 0, [Plan 6 930000000 (93 / 4) (23, 1, 4) 930000000 155000000,
                         Plan 4 620000000 (31 / 2) (15, 1, 2) 620000000 155000000], 2))"
    by (simp add: main_eval ra_eval)
  have low: "main_scenario_a \<lparr>clks_mem = [0, 0, 0], abc_mem = (0, 0, 0)\<rparr> [40000000] =
       Some (Inl Clock_too_low)"
    by (simp add: main_eval word_le_nat_alt)
  have same: "main_scenario_a ?stack [40000000] = main_scenario_a ?stack [40000000, 155000000]"
    using argument_validation[of ?stack "[]" 40000000, THEN conjunct2, THEN conjunct2,
        THEN conjunct2]
    by simp
  have many: "main_scenario_a \<lparr>clks_mem = [0, 0, 0], abc_mem = (0, 0, 0)\<rparr>
         [40000000, 1, 2, 3, 4] = Some (Inl Too_many_arguments)"
    using argument_validation[of "\<lparr>clks_mem = [0, 0, 0], abc_mem = (0, 0, 0)\<rparr>"
        "[40000000, 1, 2, 3, 4]" 0, THEN conjunct1]
    by simp
  show ?thesis
    unfolding same using run low many by simp
qed

end
